theory Spec2Isabelle
  imports Complex_Main
begin

section \<open>Values\<close>

text \<open>
  The decoded JSON documents the program works on, as Python values: \<open>None\<close>, \<open>bool\<close>,
  \<open>int\<close> (unbounded), \<open>float\<close>, \<open>str\<close>, \<open>list\<close> and \<open>dict\<close> with string keys. A dict is
  an association list read with \<open>map_of\<close>, so that the first pair of a key counts. A string is its UTF-8 byte sequence, so that
  the Polish field names of the API are written with \<open>CHR\<close> bytes. A float is the
  rational it denotes; the non-finite floats (\<open>NaN\<close>, \<open>Infinity\<close>), which are no JSON,
  are outside the model.
\<close>

datatype json =
    JNull
  | JBool bool
  | JInt int
  | JFloat rat
  | JStr string
  | JList "json list"
  | JDict "(string \<times> json) list"

text \<open>
  The exception classes the two modules meet. \<open>HTTPError\<close> is
  \<open>requests.exceptions.HTTPError\<close>, imported by \<open>models.py\<close>; \<open>Exception\<close> is the
  builtin class itself, raised with a message by \<open>fetch_data\<close>.
\<close>

datatype exn =
    HTTPError
  | Exception string
  | KeyError string
  | TypeError
  | ValueError string

fun isinstance_HTTPError :: "exn \<Rightarrow> bool" where
  "isinstance_HTTPError HTTPError = True"
| "isinstance_HTTPError _ = False"

fun isinstance_KeyError :: "exn \<Rightarrow> bool" where
  "isinstance_KeyError (KeyError _) = True"
| "isinstance_KeyError _ = False"

fun isinstance_dict :: "json \<Rightarrow> bool" where
  "isinstance_dict (JDict _) = True"
| "isinstance_dict _ = False"

text \<open>Sequencing of computations that may raise.\<close>

definition and_then :: "exn + 'a \<Rightarrow> ('a \<Rightarrow> exn + 'b) \<Rightarrow> exn + 'b" where
  "and_then m f = (case m of Inl e \<Rightarrow> Inl e | Inr x \<Rightarrow> f x)"

text \<open>
  \<open>data[key]\<close> with a string key: a dict raises \<open>KeyError\<close> on a missing key; a list or
  a string wants integer indices and every other value is not subscriptable, which are
  both \<open>TypeError\<close>.
\<close>

fun subscr :: "json \<Rightarrow> string \<Rightarrow> exn + json" where
  "subscr (JDict kvs) k = (case map_of kvs k of None \<Rightarrow> Inl (KeyError k) | Some v \<Rightarrow> Inr v)"
| "subscr _ k = Inl TypeError"

text \<open>
  \<open>for data in value\<close>: a list gives its elements, a dict its keys in the order of
  their first occurrence, a string its one-character strings (one per byte here; the
  loops below only subscript them, which raises for any string); nothing else is
  iterable.
\<close>

fun iter :: "json \<Rightarrow> exn + json list" where
  "iter (JList xs) = Inr xs"
| "iter (JDict kvs) = Inr (map JStr (rev (remdups (rev (map fst kvs)))))"
| "iter (JStr s) = Inr (map (\<lambda>c. JStr [c]) s)"
| "iter _ = Inl TypeError"

text \<open>
  \<open>current_page < total_pages\<close>, the left side an \<open>int\<close> counter: \<open>int\<close>, \<open>bool\<close> (an
  \<open>int\<close> subclass) and \<open>float\<close> compare by value, every other type raises \<open>TypeError\<close>.
\<close>

fun lt_int :: "nat \<Rightarrow> json \<Rightarrow> exn + bool" where
  "lt_int n (JInt t) = Inr (int n < t)"
| "lt_int n (JBool b) = Inr (int n < (if b then 1 else 0))"
| "lt_int n (JFloat r) = Inr (of_nat n < r)"
| "lt_int n _ = Inl TypeError"

section \<open>Data model\<close>

record Installation =
  id' :: json
  param_name :: json
  param_formula :: json
  param_code :: json
  param_id :: json

record Station =
  station_id :: json
  code :: json
  name :: json
  latitude :: json
  longitude :: json
  city :: "(string \<times> json) list"
  address_street :: json
  installations :: "Installation list"

text \<open>
  The dataclasses declare field types but check none, so a field holds whatever the
  document held. \<open>station_id\<close> is the \<open>id\<close> field of \<open>Station\<close>. What a Python variable
  may hold where the code tests it with \<open>isinstance\<close>, and the elements a list has:
\<close>

datatype pyval =
    Json json
  | Inst Installation
  | PyList "pyval list"

fun isinstance_list :: "pyval \<Rightarrow> bool" where
  "isinstance_list (PyList _) = True"
| "isinstance_list (Json (JList _)) = True"
| "isinstance_list _ = False"

fun isinstance_Installation :: "pyval \<Rightarrow> bool" where
  "isinstance_Installation (Inst _) = True"
| "isinstance_Installation _ = False"

fun elements :: "pyval \<Rightarrow> pyval list" where
  "elements (PyList xs) = xs"
| "elements (Json (JList js)) = map Json js"
| "elements _ = []"

fun the_Installations :: "pyval list \<Rightarrow> Installation list" where
  "the_Installations [] = []"
| "the_Installations (Inst i # xs) = i # the_Installations xs"
| "the_Installations (_ # xs) = the_Installations xs"

section \<open>The outside world\<close>

text \<open>
  A URL is kept in its parts: \<open>FindAll page size\<close> is
  \<open>BASE_URL + "findAll?page={page}&size={size}"\<close> and \<open>Sensors i page size\<close> is
  \<open>BASE_URL + "sensors/{i}?page={page}&size={size}"\<close>.
\<close>

datatype url =
    FindAll nat nat
  | Sensors json nat nat

text \<open>
  What \<open>await response.json()\<close> gives: the decoded body, or one of the two ways it
  fails (\<open>aiohttp.ContentTypeError\<close>, a \<open>ClientResponseError\<close>; any other exception).
\<close>

datatype body = Body json | WrongContentType | NotJson

text \<open>
  One \<open>session.get(url)\<close>: a response with its status and body, or an exception of the
  transport. The server is a function from the URL and the number of the attempt within
  one \<open>fetch_data\<close> call to what that attempt meets.
\<close>

datatype response = Response nat body | NoResponse

type_synonym http = "url \<Rightarrow> nat \<Rightarrow> response"

text \<open>What a leaf function does besides returning: requests, waits and printed lines.\<close>

datatype event =
    Get url
  | Sleep int
  | Print429 int
  | PrintHTTPError
  | PrintError
  | PrintKeyError json

section \<open>utils.py\<close>

text \<open>
  The \<open>while\<close> loop of \<open>fetch_data\<close>. \<open>Some\<close> is the \<open>return\<close> inside the loop; \<open>None\<close>
  is the loop left by \<open>break\<close> or by its condition. \<open>retry_count\<close> counts the attempts
  made so far, since only a 429 goes round again.
\<close>

function fetch_data_loop ::
  "http \<Rightarrow> url \<Rightarrow> int \<Rightarrow> int \<Rightarrow> nat \<Rightarrow> event list \<Rightarrow> json option \<times> event list" where
  "fetch_data_loop http u max_retries wait_time retry_count out =
     (if int retry_count < max_retries then
        (case http u retry_count of
           NoResponse \<Rightarrow> (None, out @ [Get u, PrintError])
         | Response status b \<Rightarrow>
             if status = 429 then
               fetch_data_loop http u max_retries (wait_time * 2) (retry_count + 1)
                 (out @ [Get u, Print429 wait_time, Sleep wait_time])
             else if 400 \<le> status then (None, out @ [Get u, PrintHTTPError])
             else
               (case b of
                  Body j \<Rightarrow> (Some j, out @ [Get u])
                | WrongContentType \<Rightarrow> (None, out @ [Get u, PrintHTTPError])
                | NotJson \<Rightarrow> (None, out @ [Get u, PrintError])))
      else (None, out))"
  by pat_completeness auto
termination
  by (relation "measure (\<lambda>(http, u, max_retries, wait_time, retry_count, out).
        nat (max_retries - int retry_count))") auto

declare fetch_data_loop.simps [simp del]

definition fetch_data :: "http \<Rightarrow> url \<Rightarrow> int \<Rightarrow> event list \<Rightarrow> (exn + json) \<times> event list" where
  "fetch_data http u max_retries out =
     (case fetch_data_loop http u max_retries 1 0 out of
        (Some j, out') \<Rightarrow> (Inr j, out')
      | (None, out') \<Rightarrow> (Inl (Exception ''Failed to fetch data''), out'))"

section \<open>models.py\<close>

definition AMOUNT_PER_PAGE :: nat where
  "AMOUNT_PER_PAGE = 500"

subsection \<open>Station.add_installations\<close>

text \<open>
  The argument the method is called with: an object of its own, or the very list object
  that is the station's \<open>installations\<close> field, as in
  \<open>s.add_installations(s.installations)\<close>.
\<close>

datatype argument = Object pyval | Own_installations

text \<open>
  The loop \<open>for install in installations: self.installations.append(install)\<close>. A
  \<open>for\<close> over a list reads it by index, \<open>i\<close> here, until the index reaches the length
  the list has by then. \<open>own\<close> is the station's list; when \<open>aliased\<close>, it is also the
  list the loop reads, and otherwise that list is \<open>xs\<close>. \<open>None\<close> is a loop that does not
  end.
\<close>

partial_function (option) add_installations_loop ::
  "bool \<Rightarrow> Installation list \<Rightarrow> nat \<Rightarrow> Installation list \<Rightarrow> Installation list option" where
  "add_installations_loop aliased xs i own =
     (if i < length (if aliased then own else xs)
      then add_installations_loop aliased xs (i + 1) (own @ [(if aliased then own else xs) ! i])
      else Some own)"

text \<open>
  The method mutates the station, so it returns the station as the call leaves it,
  with the exception when it raises; \<open>None\<close> is a call that does not return. The loop
  runs on elements that have passed the \<open>isinstance\<close> test.
\<close>

definition add_installations :: "Station \<Rightarrow> argument \<Rightarrow> (exn option \<times> Station) option" where
  "add_installations self arg =
     (let installations' =
        (case arg of
           Own_installations \<Rightarrow> map Inst (installations self)
         | Object v \<Rightarrow> if \<not> isinstance_list v then [v] else elements v) in
      if \<not> list_all isinstance_Installation installations'
      then Some (Some (ValueError ''All installations must be of type Installation''), self)
      else
        (case add_installations_loop (arg = Own_installations)
                (the_Installations installations') 0 (installations self) of
           None \<Rightarrow> None
         | Some own \<Rightarrow> Some (None, self\<lparr>installations := own\<rparr>)))"

text \<open>
  What the call comes to when the argument is an object of its own, where the loop
  reads a list that does not change and ends (\<open>add_installations_Object\<close> below).
  \<open>get_stations\<close> calls the method so: with the list a task has returned.
\<close>

definition add_installations_fresh :: "Station \<Rightarrow> pyval \<Rightarrow> exn option \<times> Station" where
  "add_installations_fresh self arg =
     (let installations' = (if \<not> isinstance_list arg then [arg] else elements arg) in
      if \<not> list_all isinstance_Installation installations'
      then (Some (ValueError ''All installations must be of type Installation''), self)
      else (None, self\<lparr>installations := installations self @ the_Installations installations'\<rparr>))"

subsection \<open>The entity parsers\<close>

abbreviation key_installations :: string where
  "key_installations \<equiv> ''Lista stanowisk pomiarowych dla podanej stacji''"

abbreviation key_installation_id :: string where
  "key_installation_id \<equiv> ''Identyfikator stanowiska''"

abbreviation key_param_name :: string where
  "key_param_name \<equiv> ''Wska'' @ [CHR 0xC5, CHR 0xBA] @ ''nik''"

abbreviation key_param_formula :: string where
  "key_param_formula \<equiv>
     ''Wska'' @ [CHR 0xC5, CHR 0xBA] @ ''nik - wz'' @ [CHR 0xC3, CHR 0xB3] @ ''r''"

abbreviation key_param_code :: string where
  "key_param_code \<equiv> ''Wska'' @ [CHR 0xC5, CHR 0xBA] @ ''nik - kod''"

abbreviation key_param_id :: string where
  "key_param_id \<equiv> ''Id wska'' @ [CHR 0xC5, CHR 0xBA] @ ''nika''"

abbreviation key_stations :: string where
  "key_stations \<equiv> ''Lista stacji pomiarowych''"

abbreviation key_latitude :: string where
  "key_latitude \<equiv> ''WGS84 '' @ [CHR 0xCF, CHR 0x86] @ '' N''"

abbreviation key_longitude :: string where
  "key_longitude \<equiv> ''WGS84 '' @ [CHR 0xCE, CHR 0xBB] @ '' E''"

abbreviation key_province :: string where
  "key_province \<equiv> ''Wojew'' @ [CHR 0xC3, CHR 0xB3] @ ''dztwo''"

text \<open>The constructor call in the \<open>try\<close> block: the subscripts are evaluated in order.\<close>

definition new_Installation :: "json \<Rightarrow> exn + Installation" where
  "new_Installation data =
     and_then (subscr data key_installation_id) (\<lambda>a.
     and_then (subscr data key_param_name) (\<lambda>b.
     and_then (subscr data key_param_formula) (\<lambda>c.
     and_then (subscr data key_param_code) (\<lambda>d.
     and_then (subscr data key_param_id) (\<lambda>e.
       Inr \<lparr>id' = a, param_name = b, param_formula = c, param_code = d, param_id = e\<rparr>)))))"

definition new_Station :: "json \<Rightarrow> exn + Station" where
  "new_Station data =
     and_then (subscr data ''Identyfikator stacji'') (\<lambda>a.
     and_then (subscr data ''Kod stacji'') (\<lambda>b.
     and_then (subscr data ''Nazwa stacji'') (\<lambda>c.
     and_then (subscr data key_latitude) (\<lambda>d.
     and_then (subscr data key_longitude) (\<lambda>e.
     and_then (subscr data ''Nazwa miasta'') (\<lambda>f.
     and_then (subscr data ''Identyfikator miasta'') (\<lambda>g.
     and_then (subscr data ''Gmina'') (\<lambda>h.
     and_then (subscr data ''Powiat'') (\<lambda>i.
     and_then (subscr data key_province) (\<lambda>j.
     and_then (subscr data ''Ulica'') (\<lambda>k.
       Inr \<lparr>station_id = a, code = b, name = c, latitude = d, longitude = e,
            city = [(''name'', f), (''city_id'', g), (''commune'', h), (''district'', i),
                    (''province'', j)],
            address_street = k, installations = []\<rparr>)))))))))))"

text \<open>
  The \<open>for\<close> loops over the records: only \<open>KeyError\<close> is caught (the record is printed
  and skipped); any other exception leaves the function.
\<close>

fun create_installations_loop ::
  "json list \<Rightarrow> Installation list \<Rightarrow> event list \<Rightarrow> (exn + Installation list) \<times> event list" where
  "create_installations_loop [] installations' out = (Inr installations', out)"
| "create_installations_loop (data # rest) installations' out =
     (case new_Installation data of
        Inr installation \<Rightarrow> create_installations_loop rest (installations' @ [installation]) out
      | Inl e \<Rightarrow>
          if isinstance_KeyError e
          then create_installations_loop rest installations' (out @ [PrintKeyError data])
          else (Inl e, out))"

definition create_installations ::
  "json \<Rightarrow> event list \<Rightarrow> (exn + Installation list) \<times> event list" where
  "create_installations installation_data out =
     (if \<not> isinstance_dict installation_data
      then (Inl (ValueError ''Data must be a dictionary/json''), out)
      else
        (case and_then (subscr installation_data key_installations) iter of
           Inl e \<Rightarrow> (Inl e, out)
         | Inr installation_data_list \<Rightarrow> create_installations_loop installation_data_list [] out))"

fun create_stations_loop ::
  "json list \<Rightarrow> Station list \<Rightarrow> event list \<Rightarrow> (exn + Station list) \<times> event list" where
  "create_stations_loop [] stations out = (Inr stations, out)"
| "create_stations_loop (data # rest) stations out =
     (case new_Station data of
        Inr station \<Rightarrow> create_stations_loop rest (stations @ [station]) out
      | Inl e \<Rightarrow>
          if isinstance_KeyError e
          then create_stations_loop rest stations (out @ [PrintKeyError data])
          else (Inl e, out))"

definition create_stations :: "json \<Rightarrow> event list \<Rightarrow> (exn + Station list) \<times> event list" where
  "create_stations station_data out =
     (if \<not> isinstance_dict station_data
      then (Inl (ValueError ''Data must be a dictionary/json''), out)
      else
        (case and_then (subscr station_data key_stations) iter of
           Inl e \<Rightarrow> (Inl e, out)
         | Inr station_data_list \<Rightarrow> create_stations_loop station_data_list [] out))"

subsection \<open>Tasks\<close>

text \<open>
  \<open>await asyncio.gather(*tasks)\<close>, without \<open>return_exceptions\<close>: the exception of the
  first task to fail is raised in the caller; when no task fails, the results come in
  the order of the arguments. A task is given by what its coroutine returns or raises;
  \<open>finished i\<close> is the time at which task \<open>i\<close> completes, so that the tasks complete in
  the order \<open>sort_key finished\<close> puts them in.
\<close>

fun failures :: "(exn + 'a) list \<Rightarrow> exn list" where
  "failures [] = []"
| "failures (Inl e # rs) = e # failures rs"
| "failures (Inr _ # rs) = failures rs"

fun results :: "(exn + 'a) list \<Rightarrow> 'a list" where
  "results [] = []"
| "results (Inl _ # rs) = results rs"
| "results (Inr x # rs) = x # results rs"

definition gather :: "(nat \<Rightarrow> nat) \<Rightarrow> (exn + 'a) list \<Rightarrow> exn + 'a list" where
  "gather finished tasks =
     (case failures (map (\<lambda>i. tasks ! i) (sort_key finished [0..<length tasks])) of
        [] \<Rightarrow> Inr (results tasks)
      | e # _ \<Rightarrow> Inl e)"

subsection \<open>Station.get_installations\<close>

text \<open>How a loop body that can raise, return or run to the end of the loop leaves.\<close>

datatype ('r, 's) exit = Raise exn | Return 'r | Done 's

text \<open>A bound on the page counter under \<open>lt_int\<close>, for the termination of the page loops.\<close>

fun pages_bound :: "json \<Rightarrow> nat" where
  "pages_bound (JInt t) = nat t"
| "pages_bound (JBool b) = (if b then 1 else 0)"
| "pages_bound (JFloat r) = nat \<lceil>r\<rceil>"
| "pages_bound _ = 0"

text \<open>
  The \<open>while\<close> loop of \<open>get_installations\<close>. \<open>tasks\<close> holds, for each task created, the
  document its \<open>create_installations\<close> coroutine was given; \<open>fetched\<close> lists the URLs
  \<open>fetch_data\<close> was called with, in order. \<open>fetch_data\<close> runs with its default
  \<open>max_retries = 5\<close>.
\<close>

function get_installations_loop ::
  "http \<Rightarrow> Station \<Rightarrow> nat \<Rightarrow> json \<Rightarrow> bool \<Rightarrow> json list \<Rightarrow> url list \<Rightarrow>
   (Installation list, json list) exit \<times> url list" where
  "get_installations_loop http self current_page total_pages updated_total tasks fetched =
     (case lt_int current_page total_pages of
        Inl e \<Rightarrow> (Raise e, fetched)
      | Inr continue \<Rightarrow>
          if \<not> continue then (Done tasks, fetched)
          else
            (case fst (fetch_data http
                        (Sensors (station_id self) current_page AMOUNT_PER_PAGE) 5 []) of
               Inl e \<Rightarrow>
                 if isinstance_HTTPError e
                 then (Return [],
                       fetched @ [Sensors (station_id self) current_page AMOUNT_PER_PAGE])
                 else (Raise e,
                       fetched @ [Sensors (station_id self) current_page AMOUNT_PER_PAGE])
             | Inr installation_data \<Rightarrow>
                 (case (if updated_total = False
                        then subscr installation_data ''totalPages''
                        else Inr total_pages) of
                    Inl e \<Rightarrow>
                      (Raise e,
                       fetched @ [Sensors (station_id self) current_page AMOUNT_PER_PAGE])
                  | Inr total_pages' \<Rightarrow>
                      get_installations_loop http self (current_page + 1) total_pages' True
                        (tasks @ [installation_data])
                        (fetched @ [Sensors (station_id self) current_page AMOUNT_PER_PAGE]))))"
  by pat_completeness auto
termination
proof (relation "measures
    [\<lambda>(http, self, current_page, total_pages, updated_total, tasks, fetched).
        if updated_total then 0 else 1,
     \<lambda>(http, self, current_page, total_pages, updated_total, tasks, fetched).
        pages_bound total_pages - current_page]", goal_cases)
  case 1
  show ?case by simp
next
  case (2 http self current_page total_pages updated_total tasks fetched continue
      installation_data total_pages')
  have "current_page < nat \<lceil>r\<rceil>" if "rat_of_nat current_page < r" for r
    using that by (metis less_ceiling_iff of_int_of_nat_eq zless_nat_eq_int_zless)
  then have "current_page < pages_bound total_pages"
    using 2(1,2) by (cases total_pages) (auto split: if_splits)
  with 2(4) show ?case
    by (cases updated_total) auto
qed

declare get_installations_loop.simps [simp del]

text \<open>
  The \<open>create_installations\<close> tasks have no suspension point, so they complete in the
  order they were created in.
\<close>

definition get_installations :: "http \<Rightarrow> Station \<Rightarrow> (exn + Installation list) \<times> url list" where
  "get_installations http self =
     (case get_installations_loop http self 0 (JInt 1) False [] [] of
        (Raise e, fetched) \<Rightarrow> (Inl e, fetched)
      | (Return r, fetched) \<Rightarrow> (Inr r, fetched)
      | (Done tasks, fetched) \<Rightarrow>
          (case gather (\<lambda>i. i) (map (\<lambda>d. fst (create_installations d [])) tasks) of
             Inl e \<Rightarrow> (Inl e, fetched)
           | Inr installations' \<Rightarrow> (Inr (concat installations'), fetched)))"

subsection \<open>get_stations\<close>

text \<open>
  The \<open>while\<close> loop of \<open>get_stations\<close>. \<open>tasks\<close> holds, for each task created, the station
  whose \<open>get_installations\<close> coroutine it runs.
\<close>

function get_stations_loop ::
  "http \<Rightarrow> nat \<Rightarrow> json \<Rightarrow> Station list \<Rightarrow> bool \<Rightarrow> Station list \<Rightarrow> url list \<Rightarrow>
   (exn + Station list \<times> Station list) \<times> url list" where
  "get_stations_loop http current_page total_pages master_list updated_total tasks fetched =
     (case lt_int current_page total_pages of
        Inl e \<Rightarrow> (Inl e, fetched)
      | Inr continue \<Rightarrow>
          if \<not> continue then (Inr (master_list, tasks), fetched)
          else
            (case fst (fetch_data http (FindAll current_page AMOUNT_PER_PAGE) 5 []) of
               Inl e \<Rightarrow> (Inl e, fetched @ [FindAll current_page AMOUNT_PER_PAGE])
             | Inr station_data \<Rightarrow>
                 (case (if updated_total = False
                        then subscr station_data ''totalPages''
                        else Inr total_pages) of
                    Inl e \<Rightarrow> (Inl e, fetched @ [FindAll current_page AMOUNT_PER_PAGE])
                  | Inr total_pages' \<Rightarrow>
                      (case fst (create_stations station_data []) of
                         Inl e \<Rightarrow> (Inl e, fetched @ [FindAll current_page AMOUNT_PER_PAGE])
                       | Inr stations \<Rightarrow>
                           get_stations_loop http (current_page + 1) total_pages'
                             (master_list @ stations) True (tasks @ stations)
                             (fetched @ [FindAll current_page AMOUNT_PER_PAGE])))))"
  by pat_completeness auto
termination
proof (relation "measures
    [\<lambda>(http, current_page, total_pages, master_list, updated_total, tasks, fetched).
        if updated_total then 0 else 1,
     \<lambda>(http, current_page, total_pages, master_list, updated_total, tasks, fetched).
        pages_bound total_pages - current_page]", goal_cases)
  case 1
  show ?case by simp
next
  case (2 http current_page total_pages master_list updated_total tasks fetched continue
      station_data total_pages' stations)
  have "current_page < nat \<lceil>r\<rceil>" if "rat_of_nat current_page < r" for r
    using that by (metis less_ceiling_iff of_int_of_nat_eq zless_nat_eq_int_zless)
  then have "current_page < pages_bound total_pages"
    using 2(1,2) by (cases total_pages) (auto split: if_splits)
  with 2(4) show ?case
    by (cases updated_total) auto
qed

declare get_stations_loop.simps [simp del]

text \<open>
  The loop \<open>for station, installs in zip(master_list, ...)\<close>: each station of the list
  is updated in place, and the stations \<open>zip\<close> does not reach stay as they are. Each
  \<open>installs\<close> is the list its task built and returned, an object of its own.
\<close>

fun merge_loop :: "Station list \<Rightarrow> Installation list list \<Rightarrow> exn + Station list" where
  "merge_loop (station # master_list) (installs # rest) =
     (case add_installations_fresh station (PyList (map Inst installs)) of
        (Some e, station') \<Rightarrow> Inl e
      | (None, station') \<Rightarrow>
          (case merge_loop master_list rest of
             Inl e \<Rightarrow> Inl e
           | Inr master_list' \<Rightarrow> Inr (station' # master_list')))"
| "merge_loop master_list [] = Inr master_list"
| "merge_loop [] rest = Inr []"

text \<open>
  \<open>finished\<close> gives the completion times of the installation tasks. The tasks are
  awaited twice; the second \<open>gather\<close> finds them completed. What \<open>echo\<close> prints is not
  part of the result.
\<close>

definition get_stations :: "http \<Rightarrow> (nat \<Rightarrow> nat) \<Rightarrow> bool \<Rightarrow> (exn + Station list) \<times> url list" where
  "get_stations http finished echo =
     (case get_stations_loop http 0 (JInt 1) [] False [] [] of
        (Inl e, fetched) \<Rightarrow> (Inl e, fetched)
      | (Inr (master_list, tasks), fetched) \<Rightarrow>
          (case gather finished (map (\<lambda>station. fst (get_installations http station)) tasks) of
             Inl e \<Rightarrow> (Inl e, fetched)
           | Inr _ \<Rightarrow>
               (case gather finished
                       (map (\<lambda>station. fst (get_installations http station)) tasks) of
                  Inl e \<Rightarrow> (Inl e, fetched)
                | Inr installs \<Rightarrow>
                    (case merge_loop master_list installs of
                       Inl e \<Rightarrow> (Inl e, fetched)
                     | Inr master_list' \<Rightarrow> (Inr master_list', fetched)))))"

section \<open>Notions of the specification\<close>

text \<open>The time a trace spends in \<open>asyncio.sleep\<close>.\<close>

fun total_wait :: "event list \<Rightarrow> int" where
  "total_wait [] = 0"
| "total_wait (Sleep w # es) = w + total_wait es"
| "total_wait (_ # es) = total_wait es"

text \<open>
  The trace of \<open>k\<close> rate-limited attempts in a row, the first wait being \<open>w\<close>: each is
  a request, the printed line and a wait twice as long as the one before.
\<close>

definition backoff :: "url \<Rightarrow> int \<Rightarrow> nat \<Rightarrow> event list" where
  "backoff u w k =
     concat (map (\<lambda>i. [Get u, Print429 (w * 2 ^ i), Sleep (w * 2 ^ i)]) [0..<k])"


text \<open>
  A record as the specification sees it: well-formed when it is a dict with every
  required field, and then mapped to its entity field by field.
\<close>

definition installation_keys :: "string list" where
  "installation_keys =
     [key_installation_id, key_param_name, key_param_formula, key_param_code, key_param_id]"

definition station_keys :: "string list" where
  "station_keys =
     [''Identyfikator stacji'', ''Kod stacji'', ''Nazwa stacji'', key_latitude, key_longitude,
      ''Nazwa miasta'', ''Identyfikator miasta'', ''Gmina'', ''Powiat'', key_province, ''Ulica'']"

fun has_field :: "json \<Rightarrow> string \<Rightarrow> bool" where
  "has_field (JDict kvs) k = (map_of kvs k \<noteq> None)"
| "has_field _ k = False"

definition well_formed :: "string list \<Rightarrow> json \<Rightarrow> bool" where
  "well_formed keys record = list_all (has_field record) keys"

fun field :: "json \<Rightarrow> string \<Rightarrow> json" where
  "field (JDict kvs) k = (case map_of kvs k of Some v \<Rightarrow> v | None \<Rightarrow> JNull)"
| "field _ k = JNull"

definition installation_of :: "json \<Rightarrow> Installation" where
  "installation_of record =
     \<lparr>id' = field record key_installation_id, param_name = field record key_param_name,
      param_formula = field record key_param_formula, param_code = field record key_param_code,
      param_id = field record key_param_id\<rparr>"

definition station_of :: "json \<Rightarrow> Station" where
  "station_of record =
     \<lparr>station_id = field record ''Identyfikator stacji'', code = field record ''Kod stacji'',
      name = field record ''Nazwa stacji'', latitude = field record key_latitude,
      longitude = field record key_longitude,
      city = [(''name'', field record ''Nazwa miasta''),
              (''city_id'', field record ''Identyfikator miasta''),
              (''commune'', field record ''Gmina''), (''district'', field record ''Powiat''),
              (''province'', field record key_province)],
      address_street = field record ''Ulica'', installations = []\<rparr>"

section \<open>Example documents\<close>

definition installation_record :: "int \<Rightarrow> json" where
  "installation_record n =
     JDict [(key_installation_id, JInt n), (key_param_name, JStr ''ozon''),
            (key_param_formula, JStr ''O3''), (key_param_code, JStr ''O3''),
            (key_param_id, JInt 5)]"

definition station_record :: "int \<Rightarrow> json" where
  "station_record n =
     JDict [(''Identyfikator stacji'', JInt n), (''Kod stacji'', JStr ''DsWroc''),
            (''Nazwa stacji'', JStr ''Wroclaw''), (key_latitude, JFloat (51 / 1)),
            (key_longitude, JFloat (17 / 1)), (''Nazwa miasta'', JStr ''Wroclaw''),
            (''Identyfikator miasta'', JInt 1064), (''Gmina'', JStr ''Wroclaw''),
            (''Powiat'', JStr ''Wroclaw''), (key_province, JStr ''DOLNOSLASKIE''),
            (''Ulica'', JNull)]"

text \<open>
  Page documents, and three servers: one with two station pages of one station each,
  the first station with two installation pages (one record of them malformed) and the
  second rate-limited once; one whose first station's installation resource answers
  500; one whose second station page answers 500.
\<close>

definition stations_page :: "int \<Rightarrow> json list \<Rightarrow> json" where
  "stations_page n rs = JDict [(''totalPages'', JInt n), (key_stations, JList rs)]"

definition installations_page :: "int \<Rightarrow> json list \<Rightarrow> json" where
  "installations_page n rs = JDict [(''totalPages'', JInt n), (key_installations, JList rs)]"

definition example_http :: http where
  "example_http u attempt =
     (case u of
        FindAll p sz \<Rightarrow>
          if p = 0 then Response 200 (Body (stations_page 2 [station_record 1]))
          else if p = 1 then Response 200 (Body (stations_page 2 [station_record 2]))
          else Response 404 NotJson
      | Sensors i p sz \<Rightarrow>
          if i = JInt 1 \<and> p = 0
          then Response 200 (Body (installations_page 2 [installation_record 10]))
          else if i = JInt 1 \<and> p = 1
          then Response 200 (Body (installations_page 2 [JDict [], installation_record 11]))
          else if i = JInt 2 \<and> p = 0
          then (if attempt = 0 then Response 429 NotJson
                else Response 200 (Body (installations_page 1 [installation_record 20])))
          else Response 404 NotJson)"

definition unreachable_station_http :: http where
  "unreachable_station_http u attempt =
     (case u of
        FindAll p sz \<Rightarrow>
          if p = 0 then Response 200 (Body (stations_page 1 [station_record 1, station_record 2]))
          else Response 404 NotJson
      | Sensors i p sz \<Rightarrow>
          if i = JInt 2 \<and> p = 0
          then Response 200 (Body (installations_page 1 [installation_record 20]))
          else Response 500 NotJson)"

definition broken_page_http :: http where
  "broken_page_http u attempt =
     (case u of
        FindAll p sz \<Rightarrow>
          if p = 0 then Response 200 (Body (stations_page 2 [station_record 1]))
          else Response 500 NotJson
      | Sensors i p sz \<Rightarrow> Response 200 (Body (installations_page 1 [installation_record 10])))"

section \<open>Properties of fetch_data\<close>

lemma fetch_data_loop_429s:
  assumes "\<forall>i<k. \<exists>b. http u (n + i) = Response 429 b" and "int (n + k) \<le> max_retries"
  shows "fetch_data_loop http u max_retries w n out =
         fetch_data_loop http u max_retries (w * 2 ^ k) (n + k) (out @ backoff u w k)"
  using assms
proof (induction k)
  case 0
  show ?case by (simp add: backoff_def)
next
  case (Suc k)
  from Suc.prems obtain b where b: "http u (n + k) = Response 429 b" by auto
  have "fetch_data_loop http u max_retries w n out =
        fetch_data_loop http u max_retries (w * 2 ^ k) (n + k) (out @ backoff u w k)"
    using Suc by simp
  also have "\<dots> = fetch_data_loop http u max_retries (w * 2 ^ k * 2) (n + k + 1)
        ((out @ backoff u w k) @ [Get u, Print429 (w * 2 ^ k), Sleep (w * 2 ^ k)])"
    using Suc.prems(2) b by (subst fetch_data_loop.simps) simp
  also have "w * 2 ^ k * 2 = w * 2 ^ Suc k"
    by simp
  also have "(out @ backoff u w k) @ [Get u, Print429 (w * 2 ^ k), Sleep (w * 2 ^ k)] =
      out @ backoff u w (Suc k)"
    by (simp add: backoff_def)
  finally show ?case by simp
qed

lemma total_wait_append: "total_wait (xs @ ys) = total_wait xs + total_wait ys"
  by (induction xs rule: total_wait.induct) simp_all

lemma total_wait_backoff: "total_wait (backoff u w k) = (\<Sum>i<k. w * 2 ^ i)"
  by (induction k) (simp_all add: backoff_def total_wait_append)

lemma fetch_data_loop_exhausted:
  "max_retries \<le> int n \<Longrightarrow> fetch_data_loop http u max_retries w n out = (None, out)"
  by (subst fetch_data_loop.simps) simp

lemma fetch_data_loop_success:
  "int n < max_retries \<Longrightarrow> http u n = Response status (Body j) \<Longrightarrow> status < 400 \<Longrightarrow>
   fetch_data_loop http u max_retries w n out = (Some j, out @ [Get u])"
  by (subst fetch_data_loop.simps) simp

lemma fetch_data_loop_error_status:
  "int n < max_retries \<Longrightarrow> http u n = Response status b \<Longrightarrow> 400 \<le> status \<Longrightarrow>
   status \<noteq> 429 \<Longrightarrow>
   fetch_data_loop http u max_retries w n out = (None, out @ [Get u, PrintHTTPError])"
  by (subst fetch_data_loop.simps) simp

text \<open>
  Every failure of \<open>fetch_data\<close> is the one \<open>raise\<close> after the loop: it never raises an
  \<open>HTTPError\<close>, and a caller cannot tell exhausted retries from a failed request.
\<close>

lemma fetch_data_raises:
  "fst (fetch_data http u max_retries out) = Inl e \<Longrightarrow> e = Exception ''Failed to fetch data''"
  by (auto simp: fetch_data_def split: prod.splits option.splits)

text \<open>
  C3: when the server answers 429 to the first \<open>k\<close> attempts and then succeeds with the
  body \<open>j\<close>, \<open>fetch_data\<close> with \<open>k < max_retries\<close> returns \<open>j\<close> after \<open>k\<close> waits of 1, 2,
  4, ... time units, \<open>1 + 2 + ... + 2 ^ (k - 1)\<close> in total; with \<open>k \<ge> max_retries\<close> it
  raises after \<open>max_retries\<close> attempts. The error for exhausted retries is the exception
  \<open>Exception("Failed to fetch data")\<close>.
\<close>

theorem fetch_data_backoff:
  assumes "\<forall>i<k. \<exists>b. http u i = Response 429 b"
    and "http u k = Response status (Body j)" and "status < 400"
  shows "(int k < max_retries \<longrightarrow>
            fetch_data http u max_retries out = (Inr j, out @ backoff u 1 k @ [Get u]) \<and>
            total_wait (snd (fetch_data http u max_retries [])) = (\<Sum>i<k. 2 ^ i)) \<and>
         (max_retries \<le> int k \<longrightarrow>
            fetch_data http u max_retries out =
              (Inl (Exception ''Failed to fetch data''), out @ backoff u 1 (nat max_retries)))"
proof (intro conjI impI)
  assume lt: "int k < max_retries"
  have run: "fetch_data_loop http u max_retries 1 0 out' =
      (Some j, out' @ backoff u 1 k @ [Get u])" for out'
    using fetch_data_loop_429s [of k http u 0 max_retries 1 out'] assms lt
    by (simp add: fetch_data_loop_success)
  show "fetch_data http u max_retries out = (Inr j, out @ backoff u 1 k @ [Get u])"
    by (simp add: fetch_data_def run)
  show "total_wait (snd (fetch_data http u max_retries [])) = (\<Sum>i<k. 2 ^ i)"
    by (simp add: fetch_data_def run total_wait_append total_wait_backoff)
next
  assume ge: "max_retries \<le> int k"
  have "fetch_data_loop http u max_retries 1 0 out =
      (None, out @ backoff u 1 (nat max_retries))"
  proof (cases "0 \<le> max_retries")
    case True
    then show ?thesis
      using fetch_data_loop_429s [of "nat max_retries" http u 0 max_retries 1 out] assms(1) ge
      by (simp add: fetch_data_loop_exhausted)
  next
    case False
    then show ?thesis by (simp add: fetch_data_loop_exhausted backoff_def)
  qed
  then show "fetch_data http u max_retries out =
      (Inl (Exception ''Failed to fetch data''), out @ backoff u 1 (nat max_retries))"
    by (simp add: fetch_data_def)
qed

theorem fetch_data_backoff_witness:
  "fetch_data (\<lambda>u i. if i < 2 then Response 429 NotJson else Response 200 (Body (JInt 7)))
     (FindAll 0 500) 5 [] =
     (Inr (JInt 7),
      [Get (FindAll 0 500), Print429 1, Sleep 1, Get (FindAll 0 500), Print429 2, Sleep 2,
       Get (FindAll 0 500)]) \<and>
   total_wait (snd (fetch_data
     (\<lambda>u i. if i < 2 then Response 429 NotJson else Response 200 (Body (JInt 7)))
     (FindAll 0 500) 5 [])) = 1 + 2 \<and>
   fetch_data (\<lambda>u i. if i < 2 then Response 429 NotJson else Response 200 (Body (JInt 7)))
     (FindAll 0 500) 2 [] =
     (Inl (Exception ''Failed to fetch data''),
      [Get (FindAll 0 500), Print429 1, Sleep 1, Get (FindAll 0 500), Print429 2, Sleep 2])"
  using fetch_data_backoff [where k = 2 and u = "FindAll 0 500" and status = 200
      and j = "JInt 7" and max_retries = 5 and out = "[]"
      and http = "\<lambda>u i. if i < 2 then Response 429 NotJson else Response 200 (Body (JInt 7))"]
    fetch_data_backoff [where k = 2 and u = "FindAll 0 500" and status = 200
      and j = "JInt 7" and max_retries = 2 and out = "[]"
      and http = "\<lambda>u i. if i < 2 then Response 429 NotJson else Response 200 (Body (JInt 7))"]
  by (simp add: backoff_def eval_nat_numeral)

text \<open>
  C6: a response with an error status (400 or above) other than 429 ends \<open>fetch_data\<close>
  with a failure at that attempt: no request and no wait follows it. When it is the
  first response (\<open>k = 0\<close>), the trace is the one request and the printed error. The
  error for a failed request is the exception \<open>Exception("Failed to fetch data")\<close>.
\<close>

theorem fetch_data_error_status:
  assumes "\<forall>i<k. \<exists>b. http u i = Response 429 b"
    and "http u k = Response status b" and "400 \<le> status" and "status \<noteq> 429"
    and "int k < max_retries"
  shows "fetch_data http u max_retries out =
         (Inl (Exception ''Failed to fetch data''),
          out @ backoff u 1 k @ [Get u, PrintHTTPError])"
  using fetch_data_loop_429s [of k http u 0 max_retries 1 out] assms
  by (simp add: fetch_data_def fetch_data_loop_error_status)

theorem fetch_data_error_status_witness:
  "fetch_data (\<lambda>u i. Response 500 NotJson) (Sensors (JInt 1) 0 500) 5 [] =
     (Inl (Exception ''Failed to fetch data''), [Get (Sensors (JInt 1) 0 500), PrintHTTPError])"
  using fetch_data_error_status [where http = "\<lambda>u i. Response 500 NotJson" and k = 0
      and u = "Sensors (JInt 1) 0 500" and status = 500 and b = NotJson and max_retries = 5
      and out = "[]"]
  by (simp add: backoff_def)

section \<open>Properties of the parsers and of add_installations\<close>

lemma subscr_has_field: "has_field r k \<Longrightarrow> subscr r k = Inr (field r k)"
  by (cases r) auto

lemma subscr_missing: "isinstance_dict r \<Longrightarrow> \<not> has_field r k \<Longrightarrow> subscr r k = Inl (KeyError k)"
  by (cases r) auto

lemma subscr_dict_cases:
  "isinstance_dict r \<Longrightarrow> subscr r k = (if has_field r k then Inr (field r k) else Inl (KeyError k))"
  by (cases r) auto

lemma new_Installation_dict:
  assumes "isinstance_dict r"
  shows "if well_formed installation_keys r then new_Installation r = Inr (installation_of r)
         else (\<exists>k. new_Installation r = Inl (KeyError k))"
  using assms
  by (simp add: well_formed_def installation_keys_def new_Installation_def and_then_def
      installation_of_def subscr_dict_cases del: append.simps)

lemma new_Station_dict:
  assumes "isinstance_dict r"
  shows "if well_formed station_keys r then new_Station r = Inr (station_of r)
         else (\<exists>k. new_Station r = Inl (KeyError k))"
  using assms
  by (simp add: well_formed_def station_keys_def new_Station_def and_then_def
      station_of_def subscr_dict_cases del: append.simps)

lemma create_installations_loop_dicts:
  "list_all isinstance_dict rs \<Longrightarrow>
   create_installations_loop rs acc out =
     (Inr (acc @ map installation_of (filter (well_formed installation_keys) rs)),
      out @ map PrintKeyError (filter (\<lambda>r. \<not> well_formed installation_keys r) rs))"
proof (induction rs arbitrary: acc out)
  case Nil
  show ?case by simp
next
  case (Cons r rs)
  then have r: "isinstance_dict r" and rs: "list_all isinstance_dict rs" by simp_all
  show ?case
  proof (cases "well_formed installation_keys r")
    case True
    with new_Installation_dict [OF r] have "new_Installation r = Inr (installation_of r)" by simp
    with True Cons.IH [OF rs] show ?thesis by simp
  next
    case False
    with new_Installation_dict [OF r] obtain k where "new_Installation r = Inl (KeyError k)" by auto
    with False Cons.IH [OF rs] show ?thesis by simp
  qed
qed

lemma create_stations_loop_dicts:
  "list_all isinstance_dict rs \<Longrightarrow>
   create_stations_loop rs acc out =
     (Inr (acc @ map station_of (filter (well_formed station_keys) rs)),
      out @ map PrintKeyError (filter (\<lambda>r. \<not> well_formed station_keys r) rs))"
proof (induction rs arbitrary: acc out)
  case Nil
  show ?case by simp
next
  case (Cons r rs)
  then have r: "isinstance_dict r" and rs: "list_all isinstance_dict rs" by simp_all
  show ?case
  proof (cases "well_formed station_keys r")
    case True
    with new_Station_dict [OF r] have "new_Station r = Inr (station_of r)" by simp
    with True Cons.IH [OF rs] show ?thesis by simp
  next
    case False
    with new_Station_dict [OF r] obtain k where "new_Station r = Inl (KeyError k)" by auto
    with False Cons.IH [OF rs] show ?thesis by simp
  qed
qed


text \<open>
  C5: for a page document whose record list \<open>rs\<close> holds dict records, either parser
  returns the entities of the well-formed records of \<open>rs\<close>, in the order of the list,
  and prints one line for each record with a missing field; it raises nothing. So \<open>N\<close>
  well-formed and \<open>M\<close> malformed records give \<open>N\<close> entities and \<open>M\<close> printed lines.
\<close>

theorem parsers_skip_malformed_records:
  assumes "list_all isinstance_dict rs"
  shows "(subscr d key_installations = Inr (JList rs) \<longrightarrow>
            create_installations d out =
              (Inr (map installation_of (filter (well_formed installation_keys) rs)),
               out @ map PrintKeyError (filter (\<lambda>r. \<not> well_formed installation_keys r) rs))) \<and>
         (subscr d key_stations = Inr (JList rs) \<longrightarrow>
            create_stations d out =
              (Inr (map station_of (filter (well_formed station_keys) rs)),
               out @ map PrintKeyError (filter (\<lambda>r. \<not> well_formed station_keys r) rs)))"
proof (intro conjI impI)
  assume l: "subscr d key_installations = Inr (JList rs)"
  then have "isinstance_dict d" by (cases d) auto
  with l show "create_installations d out =
      (Inr (map installation_of (filter (well_formed installation_keys) rs)),
       out @ map PrintKeyError (filter (\<lambda>r. \<not> well_formed installation_keys r) rs))"
    using create_installations_loop_dicts [OF assms, of "[]" out]
    by (simp add: create_installations_def and_then_def del: append.simps)
next
  assume l: "subscr d key_stations = Inr (JList rs)"
  then have "isinstance_dict d" by (cases d) auto
  with l show "create_stations d out =
      (Inr (map station_of (filter (well_formed station_keys) rs)),
       out @ map PrintKeyError (filter (\<lambda>r. \<not> well_formed station_keys r) rs))"
    using create_stations_loop_dicts [OF assms, of "[]" out]
    by (simp add: create_stations_def and_then_def del: append.simps)
qed

theorem parsers_skip_malformed_records_witness:
  "create_installations
     (JDict [(''totalPages'', JInt 1),
             (key_installations,
              JList [installation_record 1, JDict [(key_installation_id, JInt 2)],
                     installation_record 3])]) [] =
     (Inr [installation_of (installation_record 1), installation_of (installation_record 3)],
      [PrintKeyError (JDict [(key_installation_id, JInt 2)])]) \<and>
   create_stations
     (JDict [(''totalPages'', JInt 1),
             (key_stations,
              JList [JDict [(''Kod stacji'', JStr ''x'')], station_record 1, JDict []])]) [] =
     (Inr [station_of (station_record 1)],
      [PrintKeyError (JDict [(''Kod stacji'', JStr ''x'')]), PrintKeyError (JDict [])])"
  using parsers_skip_malformed_records [where out = "[]"
      and rs = "[installation_record 1, JDict [(key_installation_id, JInt 2)],
                 installation_record 3]"
      and d = "JDict [(''totalPages'', JInt 1),
             (key_installations,
              JList [installation_record 1, JDict [(key_installation_id, JInt 2)],
                     installation_record 3])]"]
    parsers_skip_malformed_records [where out = "[]"
      and rs = "[JDict [(''Kod stacji'', JStr ''x'')], station_record 1, JDict []]"
      and d = "JDict [(''totalPages'', JInt 1),
             (key_stations,
              JList [JDict [(''Kod stacji'', JStr ''x'')], station_record 1, JDict []])]"]
  by (simp add: installation_record_def station_record_def well_formed_def
      installation_keys_def station_keys_def)


text \<open>
  C7: given a value that is not a dict (a list, say), either parser raises
  \<open>ValueError\<close> and returns no entities; it prints nothing.
\<close>

theorem parsers_reject_non_dict:
  assumes "\<not> isinstance_dict d"
  shows "create_stations d out = (Inl (ValueError ''Data must be a dictionary/json''), out) \<and>
         create_installations d out = (Inl (ValueError ''Data must be a dictionary/json''), out)"
  using assms by (simp add: create_stations_def create_installations_def)

theorem parsers_reject_non_dict_witness:
  "create_stations (JList [station_record 1]) [] =
     (Inl (ValueError ''Data must be a dictionary/json''), []) \<and>
   create_installations (JList [installation_record 1]) [] =
     (Inl (ValueError ''Data must be a dictionary/json''), [])"
  using parsers_reject_non_dict [where d = "JList [station_record 1]" and out = "[]"]
    parsers_reject_non_dict [where d = "JList [installation_record 1]" and out = "[]"]
  by simp

lemma create_installations_loop_fst:
  "fst (create_installations_loop rs acc out) = fst (create_installations_loop rs acc out')"
  by (induction rs arbitrary: acc out out') (auto split: sum.splits)

lemma create_stations_loop_fst:
  "fst (create_stations_loop rs acc out) = fst (create_stations_loop rs acc out')"
  by (induction rs arbitrary: acc out out') (auto split: sum.splits)

text \<open>
  C9: what a parser returns for a document does not depend on what was printed before,
  the only state it touches: parsing the same document again, from any state and in
  particular right after the first parse, gives an equal result.
\<close>

theorem parsers_deterministic:
  "fst (create_stations d out) = fst (create_stations d out') \<and>
   fst (create_installations d out) = fst (create_installations d out') \<and>
   fst (create_stations d (snd (create_stations d out))) = fst (create_stations d out) \<and>
   fst (create_installations d (snd (create_installations d out))) =
     fst (create_installations d out)"
proof -
  have s: "fst (create_stations d a) = fst (create_stations d b)" for a b
    using create_stations_loop_fst [of _ "[]" a b]
    by (simp add: create_stations_def split: sum.splits)
  have i: "fst (create_installations d a) = fst (create_installations d b)" for a b
    using create_installations_loop_fst [of _ "[]" a b]
    by (simp add: create_installations_def split: sum.splits)
  show ?thesis
    using s [of out out'] i [of out out'] s [of "snd (create_stations d out)" out]
      i [of "snd (create_installations d out)" out]
    by simp
qed

lemma add_installations_loop_distinct:
  "add_installations_loop False xs i own = Some (own @ drop i xs)"
proof (induction "length xs - i" arbitrary: i own)
  case 0
  then show ?case
    by (subst add_installations_loop.simps) simp
next
  case (Suc n)
  then have "i < length xs" and "n = length xs - (i + 1)" by simp_all
  with Suc.hyps(1) [of "i + 1" "own @ [xs ! i]"] show ?case
    by (subst add_installations_loop.simps) (simp add: Cons_nth_drop_Suc)
qed

text \<open>
  Reading the list it appends to, the loop never reaches the end: each step moves the
  index and the length on by one.
\<close>

lemma add_installations_loop_own:
  assumes "i < length own"
  shows "add_installations_loop True xs i own = None"
proof (cases "add_installations_loop True xs i own")
  case None
  then show ?thesis .
next
  case (Some y)
  have "\<not> (aliased \<and> i < length own)"
    if "add_installations_loop aliased xs i own = Some y" for aliased xs i own y
    by (rule add_installations_loop.raw_induct
        [where P = "\<lambda>aliased xs i own y. \<not> (aliased \<and> i < length own)", OF _ that])
      (fastforce split: if_splits)
  with Some assms show ?thesis by blast
qed

lemma add_installations_Object:
  "add_installations self (Object v) = Some (add_installations_fresh self v)"
  by (simp add: add_installations_def add_installations_fresh_def
      add_installations_loop_distinct Let_def)

lemma add_installations_Own:
  "add_installations self Own_installations =
     (if installations self = [] then Some (None, self) else None)"
proof -
  have a: "list_all isinstance_Installation (map Inst xs)" for xs
    by (induction xs) simp_all
  have b: "add_installations_loop True xs 0 [] = Some []" for xs
    by (subst add_installations_loop.simps) simp
  show ?thesis
    by (simp add: add_installations_def a b add_installations_loop_own)
qed

text \<open>
  C10, as stated, fails for the list that is the station's own: with one installation in
  it, \<open>s.add_installations(s.installations)\<close> passes the type check and then never
  returns, so nothing it appends is ever seen.
\<close>

theorem add_installations_own_list_counterexample:
  "add_installations
     ((station_of (station_record 1))\<lparr>installations := [installation_of (installation_record 1)]\<rparr>)
     Own_installations = None"
  by (simp add: add_installations_Own)

text \<open>
  C10, amended: \<open>add_installations\<close> with a list argument that is not the station's own
  \<open>installations\<close> list raises \<open>ValueError\<close> and leaves the station as it was when some
  element is not an \<open>Installation\<close>; otherwise it appends the elements in order to
  \<open>installations\<close> and changes no other field. A single \<open>Installation\<close> that is not in a
  list is appended as a one-element list would be. With the station's own list as the
  argument, the call returns, the station unchanged, when that list is empty, and does
  not return when it is not.
\<close>

theorem add_installations_checked:
  "(isinstance_list arg \<and> \<not> list_all isinstance_Installation (elements arg) \<longrightarrow>
      add_installations s (Object arg) =
        Some (Some (ValueError ''All installations must be of type Installation''), s)) \<and>
   (isinstance_list arg \<and> list_all isinstance_Installation (elements arg) \<longrightarrow>
      add_installations s (Object arg) =
        Some (None, s\<lparr>installations := installations s @ the_Installations (elements arg)\<rparr>) \<and>
      map Inst (the_Installations (elements arg)) = elements arg) \<and>
   add_installations s (Object (PyList (map Inst is))) =
     Some (None, s\<lparr>installations := installations s @ is\<rparr>) \<and>
   add_installations s (Object (Inst i)) =
     Some (None, s\<lparr>installations := installations s @ [i]\<rparr>) \<and>
   (installations s = [] \<longrightarrow> add_installations s Own_installations = Some (None, s)) \<and>
   (installations s \<noteq> [] \<longrightarrow> add_installations s Own_installations = None)"
proof -
  have a: "list_all isinstance_Installation xs \<Longrightarrow> map Inst (the_Installations xs) = xs" for xs
    by (induction xs rule: the_Installations.induct) simp_all
  have b: "the_Installations (map Inst is) = is" for "is"
    by (induction "is") simp_all
  have c: "list_all isinstance_Installation (map Inst is)" for "is"
    by (induction "is") simp_all
  show ?thesis
    by (simp add: add_installations_Object add_installations_Own add_installations_fresh_def
        a b c)
qed

theorem add_installations_checked_witness:
  "add_installations (station_of (station_record 1))
     (Object (PyList [Inst (installation_of (installation_record 1)), Json (JInt 2)])) =
     Some (Some (ValueError ''All installations must be of type Installation''),
           station_of (station_record 1)) \<and>
   add_installations
     ((station_of (station_record 1))\<lparr>installations := [installation_of (installation_record 1)]\<rparr>)
     (Object (PyList [Inst (installation_of (installation_record 2)),
                      Inst (installation_of (installation_record 3))])) =
     Some (None, (station_of (station_record 1))
        \<lparr>installations := [installation_of (installation_record 1),
             installation_of (installation_record 2), installation_of (installation_record 3)]\<rparr>) \<and>
   add_installations (station_of (station_record 1)) Own_installations =
     Some (None, station_of (station_record 1))"
  using add_installations_checked [where s = "station_of (station_record 1)"
      and arg = "PyList [Inst (installation_of (installation_record 1)), Json (JInt 2)]"]
    add_installations_checked [where
      s = "(station_of (station_record 1))\<lparr>installations := [installation_of (installation_record 1)]\<rparr>"
      and arg = "PyList [Inst (installation_of (installation_record 2)),
              Inst (installation_of (installation_record 3))]"]
  by (simp add: station_of_def)

section \<open>Properties of the page iterators and of get_stations\<close>

lemma failures_map_Inr: "failures (map Inr xs) = []"
  by (induction xs) simp_all

lemma results_map_Inr: "results (map Inr xs) = xs"
  by (induction xs) simp_all

lemma gather_map_Inr: "gather finished (map Inr xs) = Inr xs"
proof -
  have "map (\<lambda>i. map Inr xs ! i) (sort_key finished [0..<length xs]) =
        map Inr (map (\<lambda>i. xs ! i) (sort_key finished [0..<length xs]))"
    by simp
  then have "failures (map (\<lambda>i. map Inr xs ! i) (sort_key finished [0..<length xs])) = []"
    by (metis failures_map_Inr)
  then show ?thesis
    by (simp add: gather_def results_map_Inr)
qed

lemma failures_Nil_iff: "failures rs = [] \<longleftrightarrow> (\<forall>r\<in>set rs. \<not> isl r)"
  by (induction rs rule: failures.induct) simp_all

lemma gather_failure:
  assumes "r \<in> set rs" and "isl r"
  shows "isl (gather finished rs)"
proof -
  have "set (map (\<lambda>i. rs ! i) (sort_key finished [0..<length rs])) = set rs"
    by (simp add: nth_image)
  with assms have "failures (map (\<lambda>i. rs ! i) (sort_key finished [0..<length rs])) \<noteq> []"
    unfolding failures_Nil_iff by blast
  then show ?thesis
    by (simp add: gather_def split: list.splits)
qed

lemma get_installations_loop_pages:
  assumes "\<forall>p. current_page \<le> p \<and> p < T \<longrightarrow>
      fst (fetch_data http (Sensors (station_id self) p AMOUNT_PER_PAGE) 5 []) = Inr (docs p)"
  shows "get_installations_loop http self current_page (JInt (int T)) True tasks fetched =
     (Done (tasks @ map docs [current_page..<T]),
      fetched @ map (\<lambda>p. Sensors (station_id self) p AMOUNT_PER_PAGE) [current_page..<T])"
  using assms
proof (induction "T - current_page" arbitrary: current_page tasks fetched)
  case 0
  then show ?case
    by (subst get_installations_loop.simps) simp
next
  case (Suc n)
  then have lt: "current_page < T" and n: "n = T - (current_page + 1)" by simp_all
  have page: "fst (fetch_data http (Sensors (station_id self) current_page AMOUNT_PER_PAGE) 5 []) =
      Inr (docs current_page)"
    using Suc.prems lt by simp
  have rest: "\<forall>p. current_page + 1 \<le> p \<and> p < T \<longrightarrow>
      fst (fetch_data http (Sensors (station_id self) p AMOUNT_PER_PAGE) 5 []) = Inr (docs p)"
    using Suc.prems by simp
  show ?case
    using lt page Suc.hyps(1) [OF n rest]
    by (subst get_installations_loop.simps) (simp add: upt_conv_Cons)
qed

lemma get_stations_loop_pages:
  assumes "\<forall>p. current_page \<le> p \<and> p < T \<longrightarrow>
      fst (fetch_data http (FindAll p AMOUNT_PER_PAGE) 5 []) = Inr (docs p) \<and>
      fst (create_stations (docs p) []) = Inr (sts p)"
  shows "get_stations_loop http current_page (JInt (int T)) master_list True tasks fetched =
     (Inr (master_list @ concat (map sts [current_page..<T]),
           tasks @ concat (map sts [current_page..<T])),
      fetched @ map (\<lambda>p. FindAll p AMOUNT_PER_PAGE) [current_page..<T])"
  using assms
proof (induction "T - current_page" arbitrary: current_page master_list tasks fetched)
  case 0
  then show ?case
    by (subst get_stations_loop.simps) simp
next
  case (Suc n)
  then have lt: "current_page < T" and n: "n = T - (current_page + 1)" by simp_all
  have page: "fst (fetch_data http (FindAll current_page AMOUNT_PER_PAGE) 5 []) =
      Inr (docs current_page)" "fst (create_stations (docs current_page) []) = Inr (sts current_page)"
    using Suc.prems lt by simp_all
  have rest: "\<forall>p. current_page + 1 \<le> p \<and> p < T \<longrightarrow>
      fst (fetch_data http (FindAll p AMOUNT_PER_PAGE) 5 []) = Inr (docs p) \<and>
      fst (create_stations (docs p) []) = Inr (sts p)"
    using Suc.prems by simp
  show ?case
    using lt page Suc.hyps(1) [OF n rest]
    by (subst get_stations_loop.simps) (simp add: upt_conv_Cons)
qed

lemma get_stations_loop_fetch_failure:
  "get_stations_loop http current_page total_pages master_list updated_total tasks fetched =
     (r, fetched') \<Longrightarrow>
   u \<in> set fetched' \<Longrightarrow> u \<notin> set fetched \<Longrightarrow> fst (fetch_data http u 5 []) = Inl e \<Longrightarrow>
   r = Inl e"
proof (induction http current_page total_pages master_list updated_total tasks fetched
    rule: get_stations_loop.induct)
  case (1 http current_page total_pages master_list updated_total tasks fetched)
  let ?u = "FindAll current_page AMOUNT_PER_PAGE"
  have unfold: "get_stations_loop http current_page total_pages master_list updated_total tasks
      fetched = (r, fetched')"
    using "1.prems"(1) .
  show ?case
  proof (cases "lt_int current_page total_pages")
    case (Inl e')
    with unfold "1.prems"(2,3) show ?thesis
      by (subst (asm) get_stations_loop.simps) auto
  next
    case continue: (Inr continue)
    show ?thesis
    proof (cases continue)
      case False
      with continue unfold "1.prems"(2,3) show ?thesis
        by (subst (asm) get_stations_loop.simps) auto
    next
      case True
      show ?thesis
      proof (cases "fst (fetch_data http ?u 5 [])")
        case (Inl e')
        with continue True unfold "1.prems"(2,3,4) show ?thesis
          by (subst (asm) get_stations_loop.simps) auto
      next
        case station_data: (Inr station_data)
        then have other: "u \<noteq> ?u"
          using "1.prems"(4) by auto
        show ?thesis
        proof (cases "if updated_total = False then subscr station_data ''totalPages''
            else Inr total_pages")
          case (Inl e')
          with continue True station_data other unfold "1.prems"(2,3) show ?thesis
            by (subst (asm) get_stations_loop.simps) auto
        next
          case total_pages': (Inr total_pages')
          show ?thesis
          proof (cases "fst (create_stations station_data [])")
            case (Inl e')
            with continue True station_data total_pages' other unfold "1.prems"(2,3)
            show ?thesis
              by (subst (asm) get_stations_loop.simps) auto
          next
            case stations: (Inr stations)
            have "get_stations_loop http (current_page + 1) total_pages'
                (master_list @ stations) True (tasks @ stations) (fetched @ [?u]) =
                (r, fetched')"
              using continue True station_data total_pages' stations unfold
              by (subst (asm) get_stations_loop.simps) simp
            moreover have "u \<notin> set (fetched @ [?u])"
              using other "1.prems"(3) by simp
            ultimately show ?thesis
              using "1.IH" [OF continue _ station_data total_pages' stations]
                True "1.prems"(2,4)
              by simp
          qed
        qed
      qed
    qed
  qed
qed

lemma new_Station_fresh: "new_Station r = Inr s \<Longrightarrow> installations s = []"
  by (auto simp: new_Station_def and_then_def split: sum.splits)

lemma create_stations_loop_fresh:
  "fst (create_stations_loop rs acc out) = Inr sts \<Longrightarrow>
   list_all (\<lambda>s. installations s = []) acc \<Longrightarrow> list_all (\<lambda>s. installations s = []) sts"
proof (induction rs arbitrary: acc out)
  case Nil
  then show ?case by simp
next
  case (Cons r rs)
  show ?case
  proof (cases "new_Station r")
    case (Inl e)
    with Cons.prems Cons.IH [of acc "out @ [PrintKeyError r]"] show ?thesis
      by (simp split: if_splits)
  next
    case (Inr s)
    with Cons.prems Cons.IH [of "acc @ [s]" out] new_Station_fresh [OF Inr] show ?thesis
      by simp
  qed
qed

lemma create_stations_fresh:
  "fst (create_stations d out) = Inr sts \<Longrightarrow> list_all (\<lambda>s. installations s = []) sts"
  using create_stations_loop_fresh [of _ "[]" out sts]
  by (auto simp: create_stations_def split: if_splits sum.splits)

lemma get_stations_loop_tasks:
  "get_stations_loop http current_page total_pages master_list updated_total tasks fetched =
     (Inr (master_list', tasks'), fetched') \<Longrightarrow>
   tasks = master_list \<Longrightarrow> list_all (\<lambda>s. installations s = []) master_list \<Longrightarrow>
   tasks' = master_list' \<and> list_all (\<lambda>s. installations s = []) master_list'"
proof (induction http current_page total_pages master_list updated_total tasks fetched
    rule: get_stations_loop.induct)
  case (1 http current_page total_pages master_list updated_total tasks fetched)
  let ?u = "FindAll current_page AMOUNT_PER_PAGE"
  have unfold: "get_stations_loop http current_page total_pages master_list updated_total tasks
      fetched = (Inr (master_list', tasks'), fetched')"
    using "1.prems"(1) .
  show ?case
  proof (cases "lt_int current_page total_pages")
    case (Inl e')
    with unfold show ?thesis
      by (subst (asm) get_stations_loop.simps) simp
  next
    case continue: (Inr continue)
    show ?thesis
    proof (cases continue)
      case False
      with continue unfold "1.prems"(2,3) show ?thesis
        by (subst (asm) get_stations_loop.simps) auto
    next
      case True
      show ?thesis
      proof (cases "fst (fetch_data http ?u 5 [])")
        case (Inl e')
        with continue True unfold show ?thesis
          by (subst (asm) get_stations_loop.simps) simp
      next
        case station_data: (Inr station_data)
        show ?thesis
        proof (cases "if updated_total = False then subscr station_data ''totalPages''
            else Inr total_pages")
          case (Inl e')
          with continue True station_data unfold show ?thesis
            by (subst (asm) get_stations_loop.simps) simp
        next
          case total_pages': (Inr total_pages')
          show ?thesis
          proof (cases "fst (create_stations station_data [])")
            case (Inl e')
            with continue True station_data total_pages' unfold show ?thesis
              by (subst (asm) get_stations_loop.simps) simp
          next
            case stations: (Inr stations)
            have "get_stations_loop http (current_page + 1) total_pages'
                (master_list @ stations) True (tasks @ stations) (fetched @ [?u]) =
                (Inr (master_list', tasks'), fetched')"
              using continue True station_data total_pages' stations unfold
              by (subst (asm) get_stations_loop.simps) simp
            moreover have "tasks @ stations = master_list @ stations"
              using "1.prems"(2) by simp
            moreover have "list_all (\<lambda>s. installations s = []) (master_list @ stations)"
              using "1.prems"(3) create_stations_fresh [OF stations] by simp
            ultimately show ?thesis
              using "1.IH" [OF continue _ station_data total_pages' stations] True
              by simp
          qed
        qed
      qed
    qed
  qed
qed

lemma merge_loop_own:
  "merge_loop master_list (map f master_list) =
   Inr (map (\<lambda>s. s\<lparr>installations := installations s @ f s\<rparr>) master_list)"
proof (induction master_list)
  case Nil
  show ?case by simp
next
  case (Cons s master_list)
  have "list_all isinstance_Installation (map Inst xs)" for xs
    by (induction xs) simp_all
  moreover have "the_Installations (map Inst xs) = xs" for xs
    by (induction xs) simp_all
  ultimately show ?case
    using Cons.IH by (simp add: add_installations_fresh_def)
qed

lemmas run_simps =
  get_stations_def get_stations_loop.simps fetch_data_def fetch_data_loop.simps
  create_stations_def create_installations_def AMOUNT_PER_PAGE_def gather_def
  get_installations_def get_installations_loop.simps stations_page_def
  installations_page_def station_record_def installation_record_def and_then_def
  new_Station_def new_Installation_def add_installations_fresh_def station_of_def
  installation_of_def

text \<open>
  C2: when the first response reports \<open>totalPages = T\<close> with \<open>T \<ge> 1\<close> and the pages
  \<open>0..T-1\<close> are fetched and parsed without an exception, \<open>get_installations\<close> and the
  station loop of \<open>get_stations\<close> call \<open>fetch_data\<close> once for each page index
  \<open>0, ..., T-1\<close>, in this order and for no other page, and return the entities the parser
  gave for these pages, each page's once, concatenated in page order. (The station loop
  returns its \<open>master_list\<close> and, with the same content, the stations it created tasks
  for.)
\<close>

theorem page_iterators_complete:
  assumes "1 \<le> T"
  shows "(subscr (docs 0) ''totalPages'' = Inr (JInt (int T)) \<and>
          (\<forall>p<T. fst (fetch_data http (Sensors (station_id self) p AMOUNT_PER_PAGE) 5 []) =
              Inr (docs p) \<and>
            fst (create_installations (docs p) []) = Inr (ents p)) \<longrightarrow>
          get_installations http self =
            (Inr (concat (map ents [0..<T])),
             map (\<lambda>p. Sensors (station_id self) p AMOUNT_PER_PAGE) [0..<T])) \<and>
         (subscr (sdocs 0) ''totalPages'' = Inr (JInt (int T)) \<and>
          (\<forall>p<T. fst (fetch_data http (FindAll p AMOUNT_PER_PAGE) 5 []) = Inr (sdocs p) \<and>
            fst (create_stations (sdocs p) []) = Inr (sts p)) \<longrightarrow>
          get_stations_loop http 0 (JInt 1) [] False [] [] =
            (Inr (concat (map sts [0..<T]), concat (map sts [0..<T])),
             map (\<lambda>p. FindAll p AMOUNT_PER_PAGE) [0..<T]))"
proof (intro conjI impI)
  assume "subscr (docs 0) ''totalPages'' = Inr (JInt (int T)) \<and>
      (\<forall>p<T. fst (fetch_data http (Sensors (station_id self) p AMOUNT_PER_PAGE) 5 []) =
          Inr (docs p) \<and>
        fst (create_installations (docs p) []) = Inr (ents p))"
  then have t: "subscr (docs 0) ''totalPages'' = Inr (JInt (int T))"
    and a: "\<forall>p<T. fst (fetch_data http (Sensors (station_id self) p AMOUNT_PER_PAGE) 5 []) =
          Inr (docs p) \<and>
        fst (create_installations (docs p) []) = Inr (ents p)"
    by simp_all
  have upt: "[0..<T] = 0 # [1..<T]"
    using assms(1) by (simp add: upt_conv_Cons)
  have "get_installations_loop http self 0 (JInt 1) False [] [] =
      get_installations_loop http self 1 (JInt (int T)) True [docs 0]
        [Sensors (station_id self) 0 AMOUNT_PER_PAGE]"
    using a t assms by (subst get_installations_loop.simps) simp
  also have "\<dots> = (Done ([docs 0] @ map docs [1..<T]),
      [Sensors (station_id self) 0 AMOUNT_PER_PAGE] @
      map (\<lambda>p. Sensors (station_id self) p AMOUNT_PER_PAGE) [1..<T])"
    using a by (intro get_installations_loop_pages [where docs = docs]) simp
  finally have loop: "get_installations_loop http self 0 (JInt 1) False [] [] =
      (Done (map docs [0..<T]), map (\<lambda>p. Sensors (station_id self) p AMOUNT_PER_PAGE) [0..<T])"
    by (simp add: upt)
  have "map (\<lambda>d. fst (create_installations d [])) (map docs [0..<T]) = map Inr (map ents [0..<T])"
    using a by simp
  then show "get_installations http self =
            (Inr (concat (map ents [0..<T])),
             map (\<lambda>p. Sensors (station_id self) p AMOUNT_PER_PAGE) [0..<T])"
    by (simp add: get_installations_def loop gather_map_Inr del: map_map)
next
  assume "subscr (sdocs 0) ''totalPages'' = Inr (JInt (int T)) \<and>
      (\<forall>p<T. fst (fetch_data http (FindAll p AMOUNT_PER_PAGE) 5 []) = Inr (sdocs p) \<and>
        fst (create_stations (sdocs p) []) = Inr (sts p))"
  then have t: "subscr (sdocs 0) ''totalPages'' = Inr (JInt (int T))"
    and a: "\<forall>p<T. fst (fetch_data http (FindAll p AMOUNT_PER_PAGE) 5 []) = Inr (sdocs p) \<and>
        fst (create_stations (sdocs p) []) = Inr (sts p)"
    by simp_all
  have upt: "[0..<T] = 0 # [1..<T]"
    using assms(1) by (simp add: upt_conv_Cons)
  have "get_stations_loop http 0 (JInt 1) [] False [] [] =
      get_stations_loop http 1 (JInt (int T)) (sts 0) True (sts 0) [FindAll 0 AMOUNT_PER_PAGE]"
    using a t assms by (subst get_stations_loop.simps) simp
  also have "\<dots> = (Inr (sts 0 @ concat (map sts [1..<T]), sts 0 @ concat (map sts [1..<T])),
      [FindAll 0 AMOUNT_PER_PAGE] @ map (\<lambda>p. FindAll p AMOUNT_PER_PAGE) [1..<T])"
    using a by (intro get_stations_loop_pages [where docs = sdocs]) simp
  finally show "get_stations_loop http 0 (JInt 1) [] False [] [] =
            (Inr (concat (map sts [0..<T]), concat (map sts [0..<T])),
             map (\<lambda>p. FindAll p AMOUNT_PER_PAGE) [0..<T])"
    by (simp add: upt)
qed

theorem page_iterators_complete_witness:
  "get_installations example_http (station_of (station_record 1)) =
     (Inr [installation_of (installation_record 10), installation_of (installation_record 11)],
      [Sensors (JInt 1) 0 500, Sensors (JInt 1) 1 500]) \<and>
   get_stations_loop example_http 0 (JInt 1) [] False [] [] =
     (Inr ([station_of (station_record 1), station_of (station_record 2)],
           [station_of (station_record 1), station_of (station_record 2)]),
      [FindAll 0 500, FindAll 1 500])"
proof -
  let ?idocs = "\<lambda>p::nat. installations_page 2
      (if p = 0 then [installation_record 10] else [JDict [], installation_record 11])"
  let ?ients = "\<lambda>p::nat. [installation_of (installation_record (if p = 0 then 10 else 11))]"
  let ?sdocs = "\<lambda>p::nat. stations_page 2 [station_record (if p = 0 then 1 else 2)]"
  let ?sts = "\<lambda>p::nat. [station_of (station_record (if p = 0 then 1 else 2))]"
  have T: "(1::nat) \<le> 2"
    by simp
  have itotal: "subscr (?idocs 0) ''totalPages'' = Inr (JInt (int 2))"
    by (simp add: installations_page_def)
  have stotal: "subscr (?sdocs 0) ''totalPages'' = Inr (JInt (int 2))"
    by (simp add: stations_page_def)
  have ipages: "\<forall>p<2. fst (fetch_data example_http
        (Sensors (station_id (station_of (station_record 1))) p AMOUNT_PER_PAGE) 5 []) =
        Inr (?idocs p) \<and>
      fst (create_installations (?idocs p) []) = Inr (?ients p)"
    by (simp add: less_2_cases_iff run_simps example_http_def)
  have spages: "\<forall>p<2. fst (fetch_data example_http (FindAll p AMOUNT_PER_PAGE) 5 []) =
        Inr (?sdocs p) \<and>
      fst (create_stations (?sdocs p) []) = Inr (?sts p)"
    by (simp add: less_2_cases_iff run_simps example_http_def)
  from page_iterators_complete [where docs = ?idocs and ents = ?ients, OF T, THEN conjunct1,
      rule_format, OF conjI [OF itotal ipages]]
    page_iterators_complete [where sdocs = ?sdocs and sts = ?sts, OF T, THEN conjunct2,
      rule_format, OF conjI [OF stotal spages]]
  show ?thesis
    by (simp add: eval_nat_numeral station_of_def station_record_def AMOUNT_PER_PAGE_def)
qed

text \<open>
  C1 (what the code does instead): \<open>get_installations\<close> catches
  \<open>requests.exceptions.HTTPError\<close>, which \<open>fetch_data\<close> never raises. So when the fetch
  of the first installation page of a station fails, \<open>get_installations\<close> does not
  return the empty list: the \<open>Exception\<close> of \<open>fetch_data\<close> leaves it. And when the
  station is one of those the station loop ended with, \<open>get_stations\<close> raises out of
  \<open>gather\<close> and returns no station, whatever the other tasks returned.
\<close>

theorem get_installations_fetch_failure_propagates:
  assumes "fst (fetch_data http (Sensors (station_id self) 0 AMOUNT_PER_PAGE) 5 []) = Inl e"
  shows "get_installations http self =
           (Inl (Exception ''Failed to fetch data''),
            [Sensors (station_id self) 0 AMOUNT_PER_PAGE]) \<and>
         (fst (get_stations_loop http 0 (JInt 1) [] False [] []) = Inr (master_list, tasks) \<and>
          self \<in> set master_list \<longrightarrow>
          isl (fst (get_stations http finished echo)))"
proof (intro conjI impI)
  have e: "e = Exception ''Failed to fetch data''"
    using assms by (rule fetch_data_raises)
  have "get_installations_loop http self 0 (JInt 1) False [] [] =
      (Raise e, [Sensors (station_id self) 0 AMOUNT_PER_PAGE])"
    using assms by (subst get_installations_loop.simps) (simp add: e)
  then show raised: "get_installations http self =
      (Inl (Exception ''Failed to fetch data''), [Sensors (station_id self) 0 AMOUNT_PER_PAGE])"
    by (simp add: get_installations_def e)
  assume "fst (get_stations_loop http 0 (JInt 1) [] False [] []) = Inr (master_list, tasks) \<and>
      self \<in> set master_list"
  then obtain fetched where loop: "get_stations_loop http 0 (JInt 1) [] False [] [] =
      (Inr (master_list, tasks), fetched)" and self: "self \<in> set master_list"
    by (cases "get_stations_loop http 0 (JInt 1) [] False [] []") simp
  have tasks: "tasks = master_list"
    using get_stations_loop_tasks [OF loop] by simp
  have "fst (get_installations http self) \<in>
      set (map (\<lambda>station. fst (get_installations http station)) tasks)"
    using self tasks by simp
  moreover have "isl (fst (get_installations http self))"
    using raised by simp
  ultimately have "isl (gather finished
      (map (\<lambda>station. fst (get_installations http station)) tasks))"
    by (rule gather_failure)
  then show "isl (fst (get_stations http finished echo))"
    by (auto simp: get_stations_def loop split: sum.splits)
qed

theorem get_installations_fetch_failure_propagates_witness:
  "get_installations unreachable_station_http (station_of (station_record 1)) =
     (Inl (Exception ''Failed to fetch data''), [Sensors (JInt 1) 0 500]) \<and>
   get_installations unreachable_station_http (station_of (station_record 2)) =
     (Inr [installation_of (installation_record 20)], [Sensors (JInt 2) 0 500]) \<and>
   get_stations unreachable_station_http (\<lambda>i. i) True =
     (Inl (Exception ''Failed to fetch data''), [FindAll 0 500])"
proof -
  have failed: "fst (fetch_data unreachable_station_http
      (Sensors (station_id (station_of (station_record 1))) 0 AMOUNT_PER_PAGE) 5 []) =
      Inl (Exception ''Failed to fetch data'')"
    by (simp add: fetch_data_def fetch_data_loop.simps unreachable_station_http_def
        station_of_def station_record_def)
  have one: "get_installations unreachable_station_http (station_of (station_record 1)) =
     (Inl (Exception ''Failed to fetch data''), [Sensors (JInt 1) 0 500])"
    using get_installations_fetch_failure_propagates [OF failed, THEN conjunct1]
    by (simp add: station_of_def station_record_def AMOUNT_PER_PAGE_def)
  have two: "get_installations unreachable_station_http (station_of (station_record 2)) =
     (Inr [installation_of (installation_record 20)], [Sensors (JInt 2) 0 500])"
    by (simp add: run_simps unreachable_station_http_def)
  have loop: "get_stations_loop unreachable_station_http 0 (JInt 1) [] False [] [] =
     (Inr ([station_of (station_record 1), station_of (station_record 2)],
           [station_of (station_record 1), station_of (station_record 2)]), [FindAll 0 500])"
    by (simp add: run_simps unreachable_station_http_def)
  have "isl (fst (get_stations unreachable_station_http (\<lambda>i. i) True))"
    using get_installations_fetch_failure_propagates [OF failed, THEN conjunct2, rule_format,
        of "[station_of (station_record 1), station_of (station_record 2)]"
           "[station_of (station_record 1), station_of (station_record 2)]" "\<lambda>i. i" True]
    by (simp add: loop)
  moreover have "get_stations unreachable_station_http (\<lambda>i. i) True =
     (Inl (Exception ''Failed to fetch data''), [FindAll 0 500])"
    by (simp add: get_stations_def loop one two gather_def)
  ultimately show ?thesis
    using one two by simp
qed

text \<open>
  C8: when \<open>fetch_data\<close> fails for a station page that the loop of \<open>get_stations\<close>
  requests, \<open>get_stations\<close> raises that exception; it returns no station list. The
  second component of \<open>get_stations\<close> lists the station pages its loop requested.
\<close>

theorem get_stations_page_failure_propagates:
  assumes "u \<in> set (snd (get_stations http finished echo))"
    and "fst (fetch_data http u 5 []) = Inl e"
  shows "fst (get_stations http finished echo) = Inl e"
proof -
  obtain r fetched where loop: "get_stations_loop http 0 (JInt 1) [] False [] [] = (r, fetched)"
    by (cases "get_stations_loop http 0 (JInt 1) [] False [] []")
  have "snd (get_stations http finished echo) = fetched"
    by (simp add: get_stations_def loop split: sum.splits prod.splits)
  with assms(1) have "u \<in> set fetched" by simp
  with loop assms(2) have "r = Inl e"
    by (intro get_stations_loop_fetch_failure [where fetched = "[]"]) simp_all
  with loop show ?thesis
    by (simp add: get_stations_def)
qed

theorem get_stations_page_failure_propagates_witness:
  "get_stations broken_page_http (\<lambda>i. i) True =
     (Inl (Exception ''Failed to fetch data''), [FindAll 0 500, FindAll 1 500])"
proof -
  have run: "snd (get_stations broken_page_http (\<lambda>i. i) True) = [FindAll 0 500, FindAll 1 500]"
    by (simp add: run_simps broken_page_http_def)
  then have fetched: "FindAll 1 500 \<in> set (snd (get_stations broken_page_http (\<lambda>i. i) True))"
    by simp
  have failed: "fst (fetch_data broken_page_http (FindAll 1 500) 5 []) =
      Inl (Exception ''Failed to fetch data'')"
    by (simp add: fetch_data_def fetch_data_loop.simps broken_page_http_def)
  from get_stations_page_failure_propagates [OF fetched failed] run show ?thesis
    by (simp add: prod_eq_iff)
qed

text \<open>
  C4: let the station loop end with the stations \<open>master_list\<close> and let the
  installation task of every station return a list. Then the tasks were created for
  exactly the stations of \<open>master_list\<close>, in its order, and whatever the order in which
  the tasks complete, \<open>get_stations\<close> returns \<open>master_list\<close> with the \<open>installations\<close> of
  every station set to the result of the task created for that station:
  \<open>add_installations\<close> has run once on each station, on a station without
  installations, with that station's own result.
\<close>

theorem get_stations_correlation:
  assumes "fst (get_stations_loop http 0 (JInt 1) [] False [] []) = Inr (master_list, tasks)"
    and "\<forall>station\<in>set master_list.
           fst (get_installations http station) = Inr (installs station)"
  shows "tasks = master_list \<and>
         fst (get_stations http finished echo) =
           Inr (map (\<lambda>station. station\<lparr>installations := installs station\<rparr>) master_list)"
proof -
  obtain fetched where loop: "get_stations_loop http 0 (JInt 1) [] False [] [] =
      (Inr (master_list, tasks), fetched)"
    using assms(1) by (cases "get_stations_loop http 0 (JInt 1) [] False [] []") simp
  from get_stations_loop_tasks [OF loop] have tasks: "tasks = master_list"
    and fresh: "list_all (\<lambda>s. installations s = []) master_list"
    by simp_all
  have "map (\<lambda>station. fst (get_installations http station)) master_list =
      map Inr (map installs master_list)"
    using assms(2) by simp
  then have gathered: "gather finished
      (map (\<lambda>station. fst (get_installations http station)) master_list) =
      Inr (map installs master_list)"
    by (simp only: gather_map_Inr)
  have "map (\<lambda>s. s\<lparr>installations := installations s @ installs s\<rparr>) master_list =
      map (\<lambda>s. s\<lparr>installations := installs s\<rparr>) master_list"
    using fresh by (simp add: list_all_iff)
  then have "fst (get_stations http finished echo) =
      Inr (map (\<lambda>station. station\<lparr>installations := installs station\<rparr>) master_list)"
    by (simp add: get_stations_def loop tasks gathered merge_loop_own)
  with tasks show ?thesis by simp
qed

theorem get_stations_correlation_witness:
  "fst (get_stations example_http (\<lambda>i. 1 - i) True) =
     Inr [(station_of (station_record 1))
            \<lparr>installations := [installation_of (installation_record 10),
                               installation_of (installation_record 11)]\<rparr>,
          (station_of (station_record 2))
            \<lparr>installations := [installation_of (installation_record 20)]\<rparr>] \<and>
   fst (get_stations example_http (\<lambda>i. i) False) =
     fst (get_stations example_http (\<lambda>i. 1 - i) True)"
proof -
  let ?installs = "\<lambda>station. if station_id station = JInt 1
      then [installation_of (installation_record 10), installation_of (installation_record 11)]
      else [installation_of (installation_record 20)]"
  have loop: "fst (get_stations_loop example_http 0 (JInt 1) [] False [] []) =
      Inr ([station_of (station_record 1), station_of (station_record 2)],
           [station_of (station_record 1), station_of (station_record 2)])"
    by (simp add: run_simps example_http_def)
  have tasks: "\<forall>station\<in>set [station_of (station_record 1), station_of (station_record 2)].
      fst (get_installations example_http station) = Inr (?installs station)"
    by (simp add: run_simps example_http_def)
  from get_stations_correlation [OF loop tasks, of "\<lambda>i. 1 - i" True]
    get_stations_correlation [OF loop tasks, of "\<lambda>i. i" False]
  show ?thesis
    by (simp add: station_of_def station_record_def)
qed

end
